theory Spec2Isabelle
  imports Complex_Main "HOL-Library.Word"
begin

section \<open>Data model of \<open>motion_detector.py\<close>\<close>

text \<open>
  Wall-clock instants are \<open>datetime\<close> values, which have microsecond resolution: an
  instant is the number of microseconds since the epoch, and the difference of two
  instants is a \<open>timedelta\<close> in microseconds. \<open>total_seconds()\<close> is that number
  divided by \<open>10^6\<close>; the two comparisons of the source, against an integer number of
  seconds and against \<open>5.0\<close>, are written on microseconds.

  A difference score is the quotient of an integer by the number of bins, and the
  threshold is a float: both are rational numbers, compared exactly.
\<close>

type_synonym time = int
type_synonym byte = "8 word"

text \<open>
  The classes of exception that the model tells apart. All of them derive from
  \<open>Exception\<close>, which the handler of the loop catches. \<open>Socket_timeout\<close> is
  \<open>socket.timeout\<close>, which the handler of \<open>send_email\<close> names; \<open>OSError\<close> stands for
  every other operating-system error (a refused connection, a missing file).
\<close>

datatype exn =
    SMTPException | Socket_timeout | OSError | AttributeError | TypeError
  | ValueError | ZeroDivisionError | RuntimeError

text \<open>\<open>File_path d t ext\<close> stands for \<open>f"{d}{t.isoformat()}{ext}"\<close>.\<close>

datatype path = File_path string time string

datatype stream = Lores | Main

record frame =
  rows :: nat
  cols :: nat
  samples :: "byte list"

text \<open>Calls to the camera, the encoder output, the mail transport and the file system,
  and the log lines, in the order in which the program makes them.\<close>

datatype event =
    StartWriting path
  | StopWriting
  | CaptureSnapshot path
  | SendEmail path
  | DeleteLocal path
  | Log_starting_new_recording time
  | Log_motion_detected rat
  | Log_max_recording_time_exceeded int
  | Log_max_time_since_last_motion
  | Log_motion_no_longer_detected rat
  | Log_writing_snapshot path
  | Log_writing_file path
  | Log_deleting path
  | Log_sent path
  | Log_send_failed path exn
  | Log_diff_stats nat rat rat rat
  | Log_loop_error exn

record config =
  min_pixel_diff :: rat
  max_recording_length_seconds :: int
  capture_lores :: bool
  lores_width :: nat
  lores_height :: nat
  recording_dir :: string
  delete_local_recordings :: bool
  snapshot_only :: bool
  recipient :: "string option"
  email_username :: "string option"
  email_password :: "string option"

record state =
  encoding :: bool
  start_time_of_last_recording :: "time option"
  time_of_last_motion_detection :: "time option"
  tick :: nat
  diff_history :: "rat list"
  diff_min :: rat
  diff_max :: rat
  diff_average :: rat
  previous_frame :: "frame option"
  trace :: "event list"

text \<open>What the surroundings answer during one pass through the loop body: the captured
  buffer or the exception of the capture, the reading of each \<open>datetime.now()\<close> call, and
  for each call to a collaborator whether it returns (\<open>None\<close>) or raises.\<close>

record env =
  capture_buffer :: "stream \<Rightarrow> exn + byte list"
  now_cap_check :: time
  now_start :: time
  now_motion :: time
  now_cap_recheck :: time
  now_cap_log :: time
  now_idle_check :: time
  output_start :: "exn option"
  capture_snapshot :: "exn option"
  output_stop :: "exn option"
  send :: "exn option"
  os_remove :: "exn option"

text \<open>A method either returns or raises; the fields it has assigned before raising stay
  assigned.\<close>

datatype outcome = Returned state | Raised exn state

definition and_then :: "outcome \<Rightarrow> (state \<Rightarrow> outcome) \<Rightarrow> outcome" where
  "and_then r f = (case r of Returned s \<Rightarrow> f s | Raised x s \<Rightarrow> Raised x s)"

fun state_of :: "outcome \<Rightarrow> state" where
  "state_of (Returned s) = s"
| "state_of (Raised x s) = s"

fun raised :: "outcome \<Rightarrow> exn option" where
  "raised (Returned s) = None"
| "raised (Raised x s) = Some x"

definition emit :: "event \<Rightarrow> state \<Rightarrow> state" where
  "emit ev s = s\<lparr>trace := trace s @ [ev]\<rparr>"

text \<open>A call to a collaborator: the call is made, then it returns or raises.\<close>

definition call :: "event \<Rightarrow> exn option \<Rightarrow> state \<Rightarrow> outcome" where
  "call ev r s = (case r of None \<Rightarrow> Returned (emit ev s) | Some x \<Rightarrow> Raised x (emit ev s))"

definition MAX_TIME_SINCE_LAST_MOTION_DETECTION_SECONDS :: int where
  "MAX_TIME_SINCE_LAST_MOTION_DETECTION_SECONDS = 5"

definition display_interval :: nat where
  "display_interval = 100"

definition diff_history_count :: nat where
  "diff_history_count = 1000"

definition init :: state where
  "init = \<lparr>encoding = False, start_time_of_last_recording = None,
      time_of_last_motion_detection = None, tick = 0, diff_history = [],
      diff_min = 9999, diff_max = 0, diff_average = 0, previous_frame = None, trace = []\<rparr>"

section \<open>Difference history\<close>

definition log_at_interval :: "event \<Rightarrow> state \<Rightarrow> state" where
  "log_at_interval message s =
     (if tick s = display_interval then (emit message s)\<lparr>tick := 0\<rparr>
      else s\<lparr>tick := tick s + 1\<rparr>)"

text \<open>The loop of \<open>display_diff_stats\<close> over the history: minimum, maximum and sum.\<close>

fun diff_stats :: "rat list \<Rightarrow> rat \<times> rat \<times> rat \<Rightarrow> rat \<times> rat \<times> rat" where
  "diff_stats [] acc = acc"
| "diff_stats (v # vs) (mn, mx, diff_sum) =
     diff_stats vs (if v < mn then v else mn, if v > mx then v else mx, diff_sum + v)"

definition display_diff_stats :: "state \<Rightarrow> outcome" where
  "display_diff_stats s =
     (case diff_stats (diff_history s) (9999, 0, 0) of (mn, mx, diff_sum) \<Rightarrow>
        let s1 = s\<lparr>diff_min := mn, diff_max := mx\<rparr>;
            iterations = length (diff_history s)
        in if iterations = 0 then Raised ZeroDivisionError s1
           else let s2 = s1\<lparr>diff_average := diff_sum / of_nat iterations\<rparr>
                in Returned (log_at_interval
                     (Log_diff_stats iterations (diff_average s2) (diff_min s2) (diff_max s2)) s2))"

text \<open>The first loop of the full branch of \<open>store_diff_history\<close>: the values at the
  positions \<open>1 \<dots> diff_history_count - 1\<close> are appended to the new list.\<close>

fun copy_positions :: "nat \<Rightarrow> rat list \<Rightarrow> rat list \<Rightarrow> rat list" where
  "copy_positions pos [] new_diff_history = new_diff_history"
| "copy_positions pos (v # vs) new_diff_history =
     copy_positions (pos + 1) vs
       (if 1 \<le> pos \<and> pos \<le> diff_history_count - 1 then new_diff_history @ [v]
        else new_diff_history)"

text \<open>The second loop: the cleared history is refilled from the new list.\<close>

definition refill :: "rat list \<Rightarrow> rat list" where
  "refill new_diff_history = foldl (\<lambda>h v. h @ [v]) [] new_diff_history"

definition record_diff :: "rat \<Rightarrow> rat list \<Rightarrow> rat list" where
  "record_diff d h =
     (if length h = diff_history_count then refill (copy_positions 0 h [d])
      else h @ [d])"

definition store_diff_history :: "rat \<Rightarrow> state \<Rightarrow> outcome" where
  "store_diff_history d s =
     display_diff_stats (s\<lparr>diff_history := record_diff d (diff_history s)\<rparr>)"

section \<open>Difference estimator\<close>

text \<open>\<open>Image.histogram()\<close> of an 8-bit single-band image: 256 bins, bin \<open>b\<close> counts the
  samples of intensity \<open>b\<close>. \<open>Image.fromarray\<close> is taken to accept every reshaped
  frame.\<close>

definition histogram :: "frame \<Rightarrow> int list" where
  "histogram f = map (\<lambda>b. int (count_list (samples f) (of_nat b))) [0..<256]"

definition calculate_histogram_difference :: "frame \<Rightarrow> frame \<Rightarrow> rat" where
  "calculate_histogram_difference current_frame previous =
     (let current_hist = histogram current_frame;
          previous_hist = histogram previous
      in of_int (sum_list (map (\<lambda>(c, p). \<bar>c - p\<bar>) (zip current_hist previous_hist)))
           / of_nat (length current_hist))"

section \<open>Recording\<close>

definition is_max_recording_length_exceeded :: "config \<Rightarrow> time \<Rightarrow> state \<Rightarrow> bool" where
  "is_max_recording_length_exceeded cfg now s =
     (max_recording_length_seconds cfg > 0 \<and>
      (case start_time_of_last_recording s of
         None \<Rightarrow> False
       | Some t \<Rightarrow> now - t \<ge> max_recording_length_seconds cfg * 1000000))"

definition is_max_time_since_last_motion_detection_exceeded :: "time \<Rightarrow> state \<Rightarrow> bool" where
  "is_max_time_since_last_motion_detection_exceeded now s =
     (encoding s \<and>
      (case time_of_last_motion_detection s of
         None \<Rightarrow> False
       | Some t \<Rightarrow> now - t > MAX_TIME_SINCE_LAST_MOTION_DETECTION_SECONDS * 1000000))"

text \<open>Both path getters call \<open>isoformat\<close> on the start time, which raises on \<open>None\<close>.\<close>

definition get_recording_file_path :: "config \<Rightarrow> state \<Rightarrow> exn + path" where
  "get_recording_file_path cfg s =
     (case start_time_of_last_recording s of
        None \<Rightarrow> Inl AttributeError
      | Some t \<Rightarrow> Inr (File_path (recording_dir cfg) t ''.h264''))"

definition get_snapshot_file_path :: "config \<Rightarrow> state \<Rightarrow> exn + path" where
  "get_snapshot_file_path cfg s =
     (case start_time_of_last_recording s of
        None \<Rightarrow> Inl AttributeError
      | Some t \<Rightarrow> Inr (File_path (recording_dir cfg) t ''.jpeg''))"

definition start_recording :: "config \<Rightarrow> env \<Rightarrow> state \<Rightarrow> outcome" where
  "start_recording cfg e s =
     (case get_recording_file_path cfg s of
        Inl x \<Rightarrow> Raised x s
      | Inr p \<Rightarrow>
          and_then (call (StartWriting p) (output_start e) s)
            (\<lambda>s. Returned (s\<lparr>encoding := True\<rparr>)))"

definition create_snapshot :: "config \<Rightarrow> env \<Rightarrow> state \<Rightarrow> outcome" where
  "create_snapshot cfg e s =
     (case get_snapshot_file_path cfg s of
        Inl x \<Rightarrow> Raised x s
      | Inr p \<Rightarrow> call (CaptureSnapshot p) (capture_snapshot e) s)"

definition write_snapshot_to_file :: "config \<Rightarrow> env \<Rightarrow> state \<Rightarrow> outcome" where
  "write_snapshot_to_file cfg e s =
     (case get_snapshot_file_path cfg s of
        Inl x \<Rightarrow> Raised x s
      | Inr file_path \<Rightarrow> create_snapshot cfg e (emit (Log_writing_snapshot file_path) s))"

section \<open>Delivery\<close>

text \<open>Truth value of an optional command-line string: \<open>None\<close> and the empty string are
  false.\<close>

definition truthy :: "string option \<Rightarrow> bool" where
  "truthy v = (case v of None \<Rightarrow> False | Some str \<Rightarrow> str \<noteq> [])"

definition delete_recording :: "config \<Rightarrow> env \<Rightarrow> path \<Rightarrow> state \<Rightarrow> outcome" where
  "delete_recording cfg e file_path s =
     (if delete_local_recordings cfg
      then call (DeleteLocal file_path) (os_remove e) (emit (Log_deleting file_path) s)
      else Returned s)"

text \<open>The body of the \<open>try\<close> of \<open>send_email\<close> is one delivery attempt. Its handler
  catches \<open>smtplib.SMTPException\<close> and \<open>socket.timeout\<close>; every other exception leaves
  the method.\<close>

definition send_email :: "env \<Rightarrow> path \<Rightarrow> state \<Rightarrow> outcome" where
  "send_email e file_path s =
     (case call (SendEmail file_path) (send e) s of
        Returned s' \<Rightarrow> Returned (emit (Log_sent file_path) s')
      | Raised x s' \<Rightarrow>
          if x = SMTPException \<or> x = Socket_timeout
          then Returned (emit (Log_send_failed file_path x) s')
          else Raised x s')"

definition upload_file :: "config \<Rightarrow> env \<Rightarrow> path \<Rightarrow> state \<Rightarrow> outcome" where
  "upload_file cfg e file_path s =
     and_then
       (if truthy (email_username cfg) \<and> truthy (recipient cfg) \<and> truthy (email_password cfg)
        then send_email e file_path s
        else Returned s)
       (delete_recording cfg e file_path)"

definition write_recording_to_file :: "config \<Rightarrow> env \<Rightarrow> state \<Rightarrow> outcome" where
  "write_recording_to_file cfg e s =
     and_then (write_snapshot_to_file cfg e s) (\<lambda>s.
       case get_recording_file_path cfg s of
         Inl x \<Rightarrow> Raised x s
       | Inr file_path \<Rightarrow>
          (case get_snapshot_file_path cfg s of
             Inl x \<Rightarrow> Raised x s
           | Inr snapshot_path \<Rightarrow>
               and_then (call StopWriting (output_stop e) (emit (Log_writing_file file_path) s))
                 (\<lambda>s. and_then
                     (if snapshot_only cfg then upload_file cfg e snapshot_path s
                      else upload_file cfg e file_path s)
                     (\<lambda>s. Returned
                        (s\<lparr>encoding := False, start_time_of_last_recording := None\<rparr>)))))"

section \<open>The loop\<close>

text \<open>The part of the loop body that runs when there is a previous frame, from the
  computed difference on.\<close>

definition on_hist_diff :: "config \<Rightarrow> env \<Rightarrow> rat \<Rightarrow> state \<Rightarrow> outcome" where
  "on_hist_diff cfg e hist_diff s0 =
     and_then (store_diff_history hist_diff s0) (\<lambda>s.
       if hist_diff > min_pixel_diff cfg
          \<and> \<not> is_max_recording_length_exceeded cfg (now_cap_check e) s
          \<and> \<not> encoding s
       then
         and_then
           (if \<not> encoding s
            then start_recording cfg e
                   (emit (Log_starting_new_recording (now_start e))
                      (s\<lparr>start_time_of_last_recording := Some (now_start e)\<rparr>))
            else Returned s)
           (\<lambda>s. Returned
              (emit (Log_motion_detected hist_diff)
                 (s\<lparr>time_of_last_motion_detection := Some (now_motion e)\<rparr>)))
       else if is_max_recording_length_exceeded cfg (now_cap_recheck e) s
       then
         (case start_time_of_last_recording s of
            None \<Rightarrow> Raised TypeError s
          | Some t \<Rightarrow>
              write_recording_to_file cfg e
                (emit (Log_max_recording_time_exceeded (now_cap_log e - t)) s))
       else if is_max_time_since_last_motion_detection_exceeded (now_idle_check e) s
       then
         write_recording_to_file cfg e
           (emit (Log_motion_no_longer_detected hist_diff)
              (emit Log_max_time_since_last_motion s))
       else Returned s)"

text \<open>\<open>current_frame[:w * h].reshape(h, w)\<close>: the slice is reshaped, which raises when
  its size is not \<open>h * w\<close>.\<close>

definition reshape :: "byte list \<Rightarrow> nat \<Rightarrow> nat \<Rightarrow> exn + frame" where
  "reshape buf h w =
     (if length buf = h * w then Inr \<lparr>rows = h, cols = w, samples = buf\<rparr>
      else Inl ValueError)"

text \<open>The \<open>try\<close> block of the loop body.\<close>

definition loop_try :: "config \<Rightarrow> env \<Rightarrow> state \<Rightarrow> outcome" where
  "loop_try cfg e s =
     (let w = lores_width cfg; h = lores_height cfg in
      case capture_buffer e (if capture_lores cfg then Lores else Main) of
        Inl x \<Rightarrow> Raised x s
      | Inr buffer \<Rightarrow>
         (case reshape (take (w * h) buffer) h w of
            Inl x \<Rightarrow> Raised x s
          | Inr current_frame \<Rightarrow>
              and_then
                (case previous_frame s of
                   None \<Rightarrow> Returned s
                 | Some previous \<Rightarrow>
                     on_hist_diff cfg e
                       (calculate_histogram_difference current_frame previous) s)
                (\<lambda>s. Returned (s\<lparr>previous_frame := Some current_frame\<rparr>))))"

text \<open>One pass through the body of \<open>while True\<close>: the \<open>try\<close> block, and the handler, which
  logs the exception and continues.\<close>

definition loop_iteration :: "config \<Rightarrow> env \<Rightarrow> state \<Rightarrow> state" where
  "loop_iteration cfg e s =
     (case loop_try cfg e s of
        Returned s' \<Rightarrow> s'
      | Raised x s' \<Rightarrow> emit (Log_loop_error x) s')"

text \<open>The loop never leaves by itself; a run is any finite number of passes.\<close>

fun loop :: "config \<Rightarrow> env list \<Rightarrow> state \<Rightarrow> state" where
  "loop cfg [] s = s"
| "loop cfg (e # es) s = loop cfg es (loop_iteration cfg e s)"

text \<open>A sequence of \<open>store_diff_history\<close> calls, one per computed difference.\<close>

fun store_all :: "rat list \<Rightarrow> state \<Rightarrow> state" where
  "store_all [] s = s"
| "store_all (d # ds) s = store_all ds (state_of (store_diff_history d s))"

text \<open>The calls to collaborators in a trace, without the log lines, and the number of
  \<open>start\<close> calls on the encoder output.\<close>

fun is_command :: "event \<Rightarrow> bool" where
  "is_command (StartWriting p) = True"
| "is_command StopWriting = True"
| "is_command (CaptureSnapshot p) = True"
| "is_command (SendEmail p) = True"
| "is_command (DeleteLocal p) = True"
| "is_command ev = False"

definition commands :: "event list \<Rightarrow> event list" where
  "commands tr = filter is_command tr"

fun is_start :: "event \<Rightarrow> bool" where
  "is_start (StartWriting p) = True"
| "is_start ev = False"

definition starts :: "event list \<Rightarrow> nat" where
  "starts tr = length (filter is_start tr)"

text \<open>Feeding a sequence of difference scores, each with the answers of the surroundings
  on that pass.\<close>

fun feed :: "config \<Rightarrow> (env \<times> rat) list \<Rightarrow> state \<Rightarrow> state" where
  "feed cfg [] s = s"
| "feed cfg ((e, d) # rest) s = feed cfg rest (state_of (on_hist_diff cfg e d s))"

text \<open>The defaults of the command line.\<close>

definition default_config :: config where
  "default_config = \<lparr>min_pixel_diff = 72 / 10, max_recording_length_seconds = 0,
      capture_lores = False, lores_width = 320, lores_height = 240,
      recording_dir = ''./recordings/'', delete_local_recordings = False,
      snapshot_only = False, recipient = None, email_username = None,
      email_password = None\<rparr>"

text \<open>Surroundings in which every clock reading of the pass is \<open>t\<close>, the capture gives
  the buffer \<open>buf\<close> and no collaborator raises.\<close>

definition env_at :: "time \<Rightarrow> byte list \<Rightarrow> env" where
  "env_at t buf = \<lparr>capture_buffer = (\<lambda>_. Inr buf), now_cap_check = t, now_start = t,
      now_motion = t, now_cap_recheck = t, now_cap_log = t, now_idle_check = t,
      output_start = None, capture_snapshot = None, output_stop = None, send = None,
      os_remove = None\<rparr>"

text \<open>A configuration with mail credentials and local deletion switched on.\<close>

definition mail_config :: config where
  "mail_config = default_config\<lparr>delete_local_recordings := True,
      recipient := Some ''owner@example.org'', email_username := Some ''camera@example.org'',
      email_password := Some ''secret''\<rparr>"

text \<open>Two buffers of the default low resolution, and surroundings whose capture raises.\<close>

definition dark_buffer :: "byte list" where
  "dark_buffer = replicate (320 * 240) 0"

definition bright_buffer :: "byte list" where
  "bright_buffer = replicate (320 * 240) 255"

definition failing_capture :: "time \<Rightarrow> exn \<Rightarrow> env" where
  "failing_capture t x = (env_at t [])\<lparr>capture_buffer := (\<lambda>_. Inl x)\<rparr>"

text \<open>The state after one difference of 8.0 at time 0, from the initial state: with a
  threshold below 8.0 a session has just started.\<close>

definition started :: "config \<Rightarrow> state" where
  "started cfg = state_of (on_hist_diff cfg (env_at 0 []) 8 init)"

text \<open>The loop body from the computed difference on, as a function on states, and the
  default configuration with a cap of ten seconds.\<close>

definition tick_with :: "config \<Rightarrow> env \<Rightarrow> rat \<Rightarrow> state \<Rightarrow> state" where
  "tick_with cfg e d s = state_of (on_hist_diff cfg e d s)"

definition capped_config :: config where
  "capped_config = default_config\<lparr>max_recording_length_seconds := 10\<rparr>"

section \<open>The difference history\<close>

lemma refill_acc: "foldl (\<lambda>h v. h @ [v]) acc xs = acc @ xs"
  by (induction xs arbitrary: acc) simp_all

lemma refill_id: "refill xs = xs"
  by (simp add: refill_def refill_acc)

lemma copy_positions_inside:
  "1 \<le> pos \<Longrightarrow> pos + length h \<le> diff_history_count \<Longrightarrow> copy_positions pos h new = new @ h"
  by (induction h arbitrary: pos new) simp_all

lemma record_diff_full:
  assumes "length h = diff_history_count"
  shows "record_diff d h = d # tl h"
proof (cases h)
  case Nil
  with assms show ?thesis by (simp add: diff_history_count_def)
next
  case (Cons v vs)
  with assms have "copy_positions 1 vs [d] = [d] @ vs"
    by (intro copy_positions_inside) simp_all
  with Cons assms show ?thesis
    by (simp add: record_diff_def refill_id)
qed

lemma record_diff_below:
  "length h \<noteq> diff_history_count \<Longrightarrow> record_diff d h = h @ [d]"
  by (simp add: record_diff_def)

lemma record_diff_nonempty: "record_diff d h \<noteq> []"
proof (cases "length h = diff_history_count")
  case True
  then show ?thesis by (simp add: record_diff_full)
next
  case False
  then show ?thesis by (simp add: record_diff_below)
qed

lemma length_record_diff:
  "length h \<le> diff_history_count \<Longrightarrow> length (record_diff d h) \<le> diff_history_count"
  by (cases "length h = diff_history_count")
     (simp_all add: record_diff_full record_diff_below diff_history_count_def)

lemma display_diff_stats_history:
  "diff_history (state_of (display_diff_stats s)) = diff_history s"
  by (simp add: display_diff_stats_def log_at_interval_def emit_def Let_def split: prod.splits)

lemma display_diff_stats_returns:
  "diff_history s \<noteq> [] \<Longrightarrow> raised (display_diff_stats s) = None"
  by (simp add: display_diff_stats_def Let_def split: prod.splits)

lemma store_diff_history_history:
  "diff_history (state_of (store_diff_history d s)) = record_diff d (diff_history s)"
  by (simp add: store_diff_history_def display_diff_stats_history)

lemma store_diff_history_returns: "raised (store_diff_history d s) = None"
  by (simp add: store_diff_history_def display_diff_stats_returns record_diff_nonempty)

lemma store_all_append: "store_all (xs @ ys) s = store_all ys (store_all xs s)"
  by (induction xs arbitrary: s) simp_all

lemma store_all_bounded:
  "length (diff_history s) \<le> diff_history_count \<Longrightarrow>
   length (diff_history (store_all ds s)) \<le> diff_history_count"
  by (induction ds arbitrary: s) (simp_all add: store_diff_history_history length_record_diff)

lemma store_all_below:
  "length (diff_history s) + length ds \<le> diff_history_count \<Longrightarrow>
   diff_history (store_all ds s) = diff_history s @ ds"
  by (induction ds arbitrary: s) (simp_all add: store_diff_history_history record_diff_below)

text \<open>
  C7: the history never holds more than 1000 entries. \<open>store_diff_history\<close> always
  returns; after any sequence of calls from the initial state the length is at most 1000;
  and after 1001 calls the window is the last score followed by the scores 2 to 1000, so
  the last score is present and the first-inserted entry is gone (its value is absent
  unless a later score repeats it).
\<close>

theorem diff_history_capacity:
  "raised (store_diff_history d s) = None \<and>
   length (diff_history (store_all ds init)) \<le> 1000 \<and>
   (length ds = 1001 \<longrightarrow>
      diff_history (store_all ds init) = last ds # tl (butlast ds) \<and>
      last ds \<in> set (diff_history (store_all ds init)) \<and>
      (hd ds \<notin> set (tl ds) \<longrightarrow> hd ds \<notin> set (diff_history (store_all ds init))))"
proof (intro conjI impI)
  show "raised (store_diff_history d s) = None"
    by (rule store_diff_history_returns)
  have "length (diff_history (store_all ds init)) \<le> diff_history_count"
    by (rule store_all_bounded) (simp add: init_def)
  then show "length (diff_history (store_all ds init)) \<le> 1000"
    by (simp add: diff_history_count_def)
next
  assume len: "length ds = 1001"
  then have ne: "ds \<noteq> []" by auto
  then have split: "ds = butlast ds @ [last ds]" by simp
  have lb: "length (butlast ds) = diff_history_count"
    using len by (simp add: diff_history_count_def)
  have "diff_history (store_all (butlast ds) init) = butlast ds"
    using store_all_below [of init "butlast ds"] lb by (simp add: init_def)
  then have "diff_history (store_all (butlast ds @ [last ds]) init) = last ds # tl (butlast ds)"
    using lb by (simp add: store_all_append store_diff_history_history record_diff_full)
  with split show window: "diff_history (store_all ds init) = last ds # tl (butlast ds)"
    by simp
  then show "last ds \<in> set (diff_history (store_all ds init))" by simp
  assume fresh: "hd ds \<notin> set (tl ds)"
  have tl_ne: "tl ds \<noteq> []" using len by (cases ds) auto
  then have "last ds \<in> set (tl ds)"
    using ne by (metis last_in_set last_tl list.sel(2))
  moreover have "set (tl (butlast ds)) \<subseteq> set (tl ds)"
    by (metis butlast_tl in_set_butlastD subsetI)
  ultimately show "hd ds \<notin> set (diff_history (store_all ds init))"
    using fresh window by auto
qed

lemma upt_0_1001: "[0..<1001] = 0 # [1..<1001]"
  using upt_conv_Cons [of 0 1001] by (simp del: upt_rec_numeral)

lemma upt_1_1001: "[1..<1001] = 1 # [2..<1001]"
  using upt_conv_Cons [of 1 1001] by (simp add: numeral_2_eq_2 del: upt_rec_numeral)

lemma upt_1_1002: "[1..<1002] = [1..<1001] @ [1001]"
  using upt_Suc_append [of 1 1001] by (simp del: upt_rec_numeral)

lemma upt_1_1003: "[1..<1003] = [1..<1001] @ [1001, 1002]"
  using upt_Suc_append [of 1 1002] upt_1_1002 by (simp del: upt_rec_numeral)

theorem diff_history_capacity_witness:
  "length (map rat_of_nat [0..<1001]) = 1001 \<and>
   hd (map rat_of_nat [0..<1001]) \<notin> set (tl (map rat_of_nat [0..<1001])) \<and>
   diff_history (store_all (map rat_of_nat [0..<1001]) init)
     = last (map rat_of_nat [0..<1001]) # tl (butlast (map rat_of_nat [0..<1001])) \<and>
   hd (map rat_of_nat [0..<1001]) \<notin> set (diff_history (store_all (map rat_of_nat [0..<1001]) init))"
proof -
  have len: "length (map rat_of_nat [0..<1001]) = 1001"
    by (simp del: upt_rec_numeral)
  have fresh: "hd (map rat_of_nat [0..<1001]) \<notin> set (tl (map rat_of_nat [0..<1001]))"
    unfolding upt_0_1001 by (auto simp del: upt_rec_numeral)
  from diff_history_capacity [of 0 init "map rat_of_nat [0..<1001]"] len fresh
  show ?thesis by blast
qed

text \<open>
  C8: when the history is full the new score is not appended at the end: it is written at
  the front, in place of the entry at position 0. From the empty history, the scores
  \<open>1, \<dots>, 1000\<close> are kept in insertion order; score 1001 then replaces score 1 at the
  front; score 1002 replaces score 1001, the newest entry, while the older scores
  \<open>2, \<dots>, 1000\<close> stay.
\<close>

theorem newest_first_when_full:
  "diff_history (store_all (map rat_of_nat [1..<1001]) init) = map rat_of_nat [1..<1001] \<and>
   diff_history (store_all (map rat_of_nat [1..<1002]) init) = 1001 # map rat_of_nat [2..<1001] \<and>
   diff_history (store_all (map rat_of_nat [1..<1003]) init) = 1002 # map rat_of_nat [2..<1001]"
proof -
  let ?h = "map rat_of_nat [1..<1001]"
  let ?s = "store_all ?h init"
  have len: "length ?h = diff_history_count"
    by (simp add: diff_history_count_def del: upt_rec_numeral)
  have "diff_history (store_all ?h init) = diff_history init @ ?h"
    by (rule store_all_below) (simp add: init_def diff_history_count_def del: upt_rec_numeral)
  then have full: "diff_history ?s = ?h"
    by (simp add: init_def del: upt_rec_numeral)
  have tl_h: "tl ?h = map rat_of_nat [2..<1001]"
    unfolding upt_1_1001 by (simp del: upt_rec_numeral)
  have "record_diff 1001 ?h = 1001 # tl ?h"
    using len by (rule record_diff_full)
  then have first: "diff_history (state_of (store_diff_history 1001 ?s))
      = 1001 # map rat_of_nat [2..<1001]"
    by (simp only: store_diff_history_history full tl_h)
  have "length (1001 # map rat_of_nat [2..<1001]) = diff_history_count"
    by (simp add: diff_history_count_def del: upt_rec_numeral)
  then have "record_diff 1002 (1001 # map rat_of_nat [2..<1001])
      = 1002 # tl (1001 # map rat_of_nat [2..<1001])"
    by (rule record_diff_full)
  then have again: "record_diff 1002 (1001 # map rat_of_nat [2..<1001])
      = 1002 # map rat_of_nat [2..<1001]"
    by (simp only: list.sel)
  have "diff_history (state_of (store_diff_history 1002 (state_of (store_diff_history 1001 ?s))))
      = record_diff 1002 (diff_history (state_of (store_diff_history 1001 ?s)))"
    by (rule store_diff_history_history)
  also have "\<dots> = record_diff 1002 (1001 # map rat_of_nat [2..<1001])"
    by (simp only: first)
  finally have second: "diff_history (state_of (store_diff_history 1002
        (state_of (store_diff_history 1001 ?s)))) = 1002 # map rat_of_nat [2..<1001]"
    by (simp only: again)
  have one: "diff_history (store_all (map rat_of_nat [1..<1002]) init)
      = 1001 # map rat_of_nat [2..<1001]"
    unfolding upt_1_1002 map_append store_all_append using first
    by (simp del: upt_rec_numeral)
  have two: "diff_history (store_all (map rat_of_nat [1..<1003]) init)
      = 1002 # map rat_of_nat [2..<1001]"
    unfolding upt_1_1003 map_append store_all_append using second
    by (simp del: upt_rec_numeral)
  from full one two show ?thesis by blast
qed

section \<open>Outcomes, traces and what each method leaves unchanged\<close>

lemma state_of_and_then:
  "state_of (and_then r f) = (if raised r = None then state_of (f (state_of r)) else state_of r)"
  by (cases r) (simp_all add: and_then_def)

lemma raised_and_then:
  "raised (and_then r f) = (if raised r = None then raised (f (state_of r)) else raised r)"
  by (cases r) (simp_all add: and_then_def)

lemma state_of_call: "state_of (call ev r s) = emit ev s"
  by (simp add: call_def split: option.splits)

lemma raised_call: "raised (call ev r s) = r"
  by (simp add: call_def split: option.splits)

lemma emit_fields:
  "encoding (emit ev s) = encoding s"
  "start_time_of_last_recording (emit ev s) = start_time_of_last_recording s"
  "time_of_last_motion_detection (emit ev s) = time_of_last_motion_detection s"
  "previous_frame (emit ev s) = previous_frame s"
  "diff_history (emit ev s) = diff_history s"
  "trace (emit ev s) = trace s @ [ev]"
  by (simp_all add: emit_def)

lemma starts_simps:
  "starts [] = 0"
  "starts (ev # tr) = (if is_start ev then 1 else 0) + starts tr"
  "starts (xs @ ys) = starts xs + starts ys"
  by (simp_all add: starts_def)

lemma commands_simps:
  "commands [] = []"
  "commands (ev # tr) = (if is_command ev then ev # commands tr else commands tr)"
  "commands (xs @ ys) = commands xs @ commands ys"
  by (simp_all add: commands_def)

lemmas step_simps = state_of_and_then raised_and_then state_of_call raised_call emit_fields
  starts_simps commands_simps

lemma path_cases:
  "get_recording_file_path cfg (emit ev s) = get_recording_file_path cfg s"
  "get_snapshot_file_path cfg (emit ev s) = get_snapshot_file_path cfg s"
  by (simp_all add: get_recording_file_path_def get_snapshot_file_path_def emit_fields)

lemma delete_recording_frame:
  "encoding (state_of (delete_recording cfg e p s)) = encoding s"
  "start_time_of_last_recording (state_of (delete_recording cfg e p s)) = start_time_of_last_recording s"
  "time_of_last_motion_detection (state_of (delete_recording cfg e p s)) = time_of_last_motion_detection s"
  "previous_frame (state_of (delete_recording cfg e p s)) = previous_frame s"
  "diff_history (state_of (delete_recording cfg e p s)) = diff_history s"
  "starts (trace (state_of (delete_recording cfg e p s))) = starts (trace s)"
  by (simp_all add: delete_recording_def step_simps)

lemma send_email_state:
  "state_of (send_email e p s) =
     (case send e of
        None \<Rightarrow> emit (Log_sent p) (emit (SendEmail p) s)
      | Some x \<Rightarrow> if x = SMTPException \<or> x = Socket_timeout
                  then emit (Log_send_failed p x) (emit (SendEmail p) s)
                  else emit (SendEmail p) s)"
  by (simp add: send_email_def call_def split: option.splits)

lemma send_email_raised:
  "raised (send_email e p s) =
     (case send e of
        None \<Rightarrow> None
      | Some x \<Rightarrow> if x = SMTPException \<or> x = Socket_timeout then None else Some x)"
  by (simp add: send_email_def call_def split: option.splits)

lemma send_email_frame:
  "encoding (state_of (send_email e p s)) = encoding s"
  "start_time_of_last_recording (state_of (send_email e p s)) = start_time_of_last_recording s"
  "time_of_last_motion_detection (state_of (send_email e p s)) = time_of_last_motion_detection s"
  "previous_frame (state_of (send_email e p s)) = previous_frame s"
  "diff_history (state_of (send_email e p s)) = diff_history s"
  "starts (trace (state_of (send_email e p s))) = starts (trace s)"
  by (simp_all add: send_email_state step_simps split: option.splits)

lemma upload_file_frame:
  "encoding (state_of (upload_file cfg e p s)) = encoding s"
  "start_time_of_last_recording (state_of (upload_file cfg e p s)) = start_time_of_last_recording s"
  "time_of_last_motion_detection (state_of (upload_file cfg e p s)) = time_of_last_motion_detection s"
  "previous_frame (state_of (upload_file cfg e p s)) = previous_frame s"
  "diff_history (state_of (upload_file cfg e p s)) = diff_history s"
  "starts (trace (state_of (upload_file cfg e p s))) = starts (trace s)"
  by (simp_all add: upload_file_def state_of_and_then delete_recording_frame send_email_frame)

lemma write_snapshot_to_file_frame:
  "encoding (state_of (write_snapshot_to_file cfg e s)) = encoding s"
  "start_time_of_last_recording (state_of (write_snapshot_to_file cfg e s)) = start_time_of_last_recording s"
  "time_of_last_motion_detection (state_of (write_snapshot_to_file cfg e s)) = time_of_last_motion_detection s"
  "previous_frame (state_of (write_snapshot_to_file cfg e s)) = previous_frame s"
  "diff_history (state_of (write_snapshot_to_file cfg e s)) = diff_history s"
  "starts (trace (state_of (write_snapshot_to_file cfg e s))) = starts (trace s)"
  by (simp_all add: write_snapshot_to_file_def create_snapshot_def path_cases step_simps
        split: sum.splits)

lemma path_after_snapshot:
  "get_recording_file_path cfg (state_of (write_snapshot_to_file cfg e s)) = get_recording_file_path cfg s"
  "get_snapshot_file_path cfg (state_of (write_snapshot_to_file cfg e s)) = get_snapshot_file_path cfg s"
  by (simp_all add: get_recording_file_path_def get_snapshot_file_path_def
        write_snapshot_to_file_frame)

lemma write_recording_to_file_frame:
  "time_of_last_motion_detection (state_of (write_recording_to_file cfg e s)) = time_of_last_motion_detection s"
  "previous_frame (state_of (write_recording_to_file cfg e s)) = previous_frame s"
  "diff_history (state_of (write_recording_to_file cfg e s)) = diff_history s"
  "starts (trace (state_of (write_recording_to_file cfg e s))) = starts (trace s)"
  "start_time_of_last_recording (state_of (write_recording_to_file cfg e s)) = start_time_of_last_recording s
   \<or> start_time_of_last_recording (state_of (write_recording_to_file cfg e s)) = None"
  by (simp_all add: write_recording_to_file_def step_simps path_after_snapshot
        write_snapshot_to_file_frame upload_file_frame split: sum.splits)

lemma start_recording_frame:
  "start_time_of_last_recording (state_of (start_recording cfg e s)) = start_time_of_last_recording s"
  "time_of_last_motion_detection (state_of (start_recording cfg e s)) = time_of_last_motion_detection s"
  "previous_frame (state_of (start_recording cfg e s)) = previous_frame s"
  "diff_history (state_of (start_recording cfg e s)) = diff_history s"
  by (simp_all add: start_recording_def step_simps split: sum.splits)

lemma store_diff_history_fields:
  "encoding (state_of (store_diff_history d s)) = encoding s"
  "start_time_of_last_recording (state_of (store_diff_history d s)) = start_time_of_last_recording s"
  "time_of_last_motion_detection (state_of (store_diff_history d s)) = time_of_last_motion_detection s"
  "previous_frame (state_of (store_diff_history d s)) = previous_frame s"
  "starts (trace (state_of (store_diff_history d s))) = starts (trace s)"
  "commands (trace (state_of (store_diff_history d s))) = commands (trace s)"
  by (simp_all add: store_diff_history_def display_diff_stats_def log_at_interval_def
        emit_def Let_def starts_simps commands_simps split: prod.splits)

lemma cap_check_after_store:
  "is_max_recording_length_exceeded cfg t (state_of (store_diff_history d s))
     = is_max_recording_length_exceeded cfg t s"
  by (simp add: is_max_recording_length_exceeded_def store_diff_history_fields)

lemma idle_check_after_store:
  "is_max_time_since_last_motion_detection_exceeded t (state_of (store_diff_history d s))
     = is_max_time_since_last_motion_detection_exceeded t s"
  by (simp add: is_max_time_since_last_motion_detection_exceeded_def store_diff_history_fields)

lemmas store_simps = store_diff_history_returns store_diff_history_history
  store_diff_history_fields cap_check_after_store idle_check_after_store

lemma on_hist_diff_previous_frame:
  "previous_frame (state_of (on_hist_diff cfg e d s)) = previous_frame s"
  by (simp add: on_hist_diff_def step_simps store_simps write_recording_to_file_frame
        start_recording_frame split: option.splits)

lemma on_hist_diff_history:
  "diff_history (state_of (on_hist_diff cfg e d s)) = record_diff d (diff_history s)"
  by (simp add: on_hist_diff_def step_simps store_simps write_recording_to_file_frame
        start_recording_frame split: option.splits)

lemma on_hist_diff_no_start:
  assumes "encoding s"
  shows "starts (trace (state_of (on_hist_diff cfg e d s))) = starts (trace s)"
  using assms
  by (simp add: on_hist_diff_def step_simps store_simps write_recording_to_file_frame
        split: option.splits)

lemma write_recording_after_emit:
  "start_time_of_last_recording (state_of (write_recording_to_file cfg e (emit ev s)))
     = start_time_of_last_recording s
   \<or> start_time_of_last_recording (state_of (write_recording_to_file cfg e (emit ev s))) = None"
  using write_recording_to_file_frame(5) [of cfg e "emit ev s"] by (simp add: emit_fields)

lemma on_hist_diff_session:
  assumes "encoding s"
  shows "start_time_of_last_recording (state_of (on_hist_diff cfg e d s)) = start_time_of_last_recording s
       \<or> start_time_of_last_recording (state_of (on_hist_diff cfg e d s)) = None"
proof -
  let ?s1 = "state_of (store_diff_history d s)"
  have same: "start_time_of_last_recording ?s1 = start_time_of_last_recording s"
    by (simp add: store_simps)
  have idle: "start_time_of_last_recording (state_of (write_recording_to_file cfg e
        (emit (Log_motion_no_longer_detected d) (emit Log_max_time_since_last_motion ?s1))))
      = start_time_of_last_recording s
     \<or> start_time_of_last_recording (state_of (write_recording_to_file cfg e
        (emit (Log_motion_no_longer_detected d) (emit Log_max_time_since_last_motion ?s1)))) = None"
    using write_recording_after_emit
      [of cfg e "Log_motion_no_longer_detected d" "emit Log_max_time_since_last_motion ?s1"]
    by (simp add: emit_fields same)
  have cap: "start_time_of_last_recording (state_of (write_recording_to_file cfg e
        (emit (Log_max_recording_time_exceeded t) ?s1))) = start_time_of_last_recording s
     \<or> start_time_of_last_recording (state_of (write_recording_to_file cfg e
        (emit (Log_max_recording_time_exceeded t) ?s1))) = None" for t
    using write_recording_after_emit [of cfg e "Log_max_recording_time_exceeded t" ?s1]
    by (simp add: same)
  show ?thesis
  proof (cases "is_max_recording_length_exceeded cfg (now_cap_recheck e) s")
    case True
    then show ?thesis
      using assms cap
      by (cases "start_time_of_last_recording s")
         (simp_all add: on_hist_diff_def step_simps store_simps)
  next
    case False
    then show ?thesis
      using assms idle by (simp add: on_hist_diff_def step_simps store_simps)
  qed
qed

section \<open>The recording state machine, branch by branch\<close>

lemma and_then_returned: "raised r = None \<Longrightarrow> and_then r f = f (state_of r)"
  by (cases r) (simp_all add: and_then_def)

lemma on_hist_diff_quiet:
  assumes "\<not> encoding s" "start_time_of_last_recording s = None" "\<not> d > min_pixel_diff cfg"
  shows "raised (on_hist_diff cfg e d s) = None"
    and "encoding (state_of (on_hist_diff cfg e d s)) = False"
    and "start_time_of_last_recording (state_of (on_hist_diff cfg e d s)) = None"
    and "time_of_last_motion_detection (state_of (on_hist_diff cfg e d s))
           = time_of_last_motion_detection s"
    and "commands (trace (state_of (on_hist_diff cfg e d s))) = commands (trace s)"
  using assms
  by (simp_all add: on_hist_diff_def step_simps store_simps
        is_max_recording_length_exceeded_def
        is_max_time_since_last_motion_detection_exceeded_def)

lemma on_hist_diff_begins:
  assumes "\<not> encoding s" "start_time_of_last_recording s = None" "d > min_pixel_diff cfg"
    and "output_start e = None"
  shows "raised (on_hist_diff cfg e d s) = None"
    and "encoding (state_of (on_hist_diff cfg e d s)) = True"
    and "start_time_of_last_recording (state_of (on_hist_diff cfg e d s)) = Some (now_start e)"
    and "time_of_last_motion_detection (state_of (on_hist_diff cfg e d s))
           = Some (now_motion e)"
    and "commands (trace (state_of (on_hist_diff cfg e d s)))
           = commands (trace s) @ [StartWriting (File_path (recording_dir cfg) (now_start e) ''.h264'')]"
  using assms
  by (simp_all add: on_hist_diff_def step_simps store_simps start_recording_def
        get_recording_file_path_def is_max_recording_length_exceeded_def)

lemma on_hist_diff_waits:
  assumes "encoding s" "start_time_of_last_recording s = Some t0"
    and "time_of_last_motion_detection s = Some t1"
    and "max_recording_length_seconds cfg \<le> 0
         \<or> now_cap_recheck e - t0 < max_recording_length_seconds cfg * 1000000"
    and "now_idle_check e - t1 \<le> 5000000"
  shows "raised (on_hist_diff cfg e d s) = None"
    and "encoding (state_of (on_hist_diff cfg e d s)) = True"
    and "start_time_of_last_recording (state_of (on_hist_diff cfg e d s)) = Some t0"
    and "time_of_last_motion_detection (state_of (on_hist_diff cfg e d s)) = Some t1"
    and "commands (trace (state_of (on_hist_diff cfg e d s))) = commands (trace s)"
  using assms
  by (auto simp add: on_hist_diff_def step_simps store_simps
        is_max_recording_length_exceeded_def
        is_max_time_since_last_motion_detection_exceeded_def
        MAX_TIME_SINCE_LAST_MOTION_DETECTION_SECONDS_def)

lemma upload_file_without_credentials:
  assumes "\<not> (truthy (email_username cfg) \<and> truthy (recipient cfg) \<and> truthy (email_password cfg))"
  shows "upload_file cfg e p s = delete_recording cfg e p s"
  unfolding upload_file_def if_not_P [OF assms] by (simp add: and_then_def)

lemma upload_file_with_credentials:
  assumes "truthy (email_username cfg) \<and> truthy (recipient cfg) \<and> truthy (email_password cfg)"
  shows "upload_file cfg e p s = and_then (send_email e p s) (delete_recording cfg e p)"
  unfolding upload_file_def if_P [OF assms] by (rule refl)

lemma write_recording_to_file_plain:
  assumes "start_time_of_last_recording s = Some t0"
    and "capture_snapshot e = None" "output_stop e = None"
    and "\<not> (truthy (email_username cfg) \<and> truthy (recipient cfg) \<and> truthy (email_password cfg))"
    and "\<not> delete_local_recordings cfg"
  shows "raised (write_recording_to_file cfg e s) = None"
    and "encoding (state_of (write_recording_to_file cfg e s)) = False"
    and "start_time_of_last_recording (state_of (write_recording_to_file cfg e s)) = None"
    and "commands (trace (state_of (write_recording_to_file cfg e s)))
           = commands (trace s)
             @ [CaptureSnapshot (File_path (recording_dir cfg) t0 ''.jpeg''), StopWriting]"
  using assms(1-3,5)
  by (simp_all add: write_recording_to_file_def write_snapshot_to_file_def create_snapshot_def
        get_recording_file_path_def get_snapshot_file_path_def
        upload_file_without_credentials [OF assms(4)]
        delete_recording_def step_simps)

lemma on_hist_diff_idle_stop:
  assumes "encoding s" "start_time_of_last_recording s = Some t0"
    and "time_of_last_motion_detection s = Some t1"
    and "max_recording_length_seconds cfg \<le> 0
         \<or> now_cap_recheck e - t0 < max_recording_length_seconds cfg * 1000000"
    and "now_idle_check e - t1 > 5000000"
    and "capture_snapshot e = None" "output_stop e = None"
    and "\<not> (truthy (email_username cfg) \<and> truthy (recipient cfg) \<and> truthy (email_password cfg))"
    and "\<not> delete_local_recordings cfg"
  shows "raised (on_hist_diff cfg e d s) = None"
    and "encoding (state_of (on_hist_diff cfg e d s)) = False"
    and "start_time_of_last_recording (state_of (on_hist_diff cfg e d s)) = None"
    and "commands (trace (state_of (on_hist_diff cfg e d s)))
           = commands (trace s)
             @ [CaptureSnapshot (File_path (recording_dir cfg) t0 ''.jpeg''), StopWriting]"
proof -
  let ?s2 = "emit (Log_motion_no_longer_detected d)
               (emit Log_max_time_since_last_motion (state_of (store_diff_history d s)))"
  have start2: "start_time_of_last_recording ?s2 = Some t0"
    using assms(2) by (simp add: step_simps store_simps)
  have eq: "on_hist_diff cfg e d s = write_recording_to_file cfg e ?s2"
    using assms(1-5)
    by (auto simp add: on_hist_diff_def and_then_returned store_simps
          is_max_recording_length_exceeded_def
          is_max_time_since_last_motion_detection_exceeded_def
          MAX_TIME_SINCE_LAST_MOTION_DETECTION_SECONDS_def)
  note plain = write_recording_to_file_plain [OF start2 assms(6-9)]
  show "raised (on_hist_diff cfg e d s) = None"
    and "encoding (state_of (on_hist_diff cfg e d s)) = False"
    and "start_time_of_last_recording (state_of (on_hist_diff cfg e d s)) = None"
    and "commands (trace (state_of (on_hist_diff cfg e d s)))
           = commands (trace s)
             @ [CaptureSnapshot (File_path (recording_dir cfg) t0 ''.jpeg''), StopWriting]"
    using plain by (simp_all add: eq step_simps store_simps)
qed

section \<open>One session at a time\<close>

lemma loop_iteration_alt:
  "loop_iteration cfg e s =
     (case raised (loop_try cfg e s) of
        None \<Rightarrow> state_of (loop_try cfg e s)
      | Some x \<Rightarrow> emit (Log_loop_error x) (state_of (loop_try cfg e s)))"
  by (cases "loop_try cfg e s") (simp_all add: loop_iteration_def)

lemma loop_try_no_start:
  assumes "encoding s"
  shows "starts (trace (state_of (loop_try cfg e s))) = starts (trace s)"
  using assms on_hist_diff_no_start [of s cfg e]
  by (simp add: loop_try_def Let_def step_simps split: sum.splits option.splits)

lemma loop_try_session:
  assumes "encoding s"
  shows "start_time_of_last_recording (state_of (loop_try cfg e s)) = start_time_of_last_recording s
       \<or> start_time_of_last_recording (state_of (loop_try cfg e s)) = None"
  using assms on_hist_diff_session [of s cfg e]
  by (simp add: loop_try_def Let_def step_simps split: sum.splits option.splits)

text \<open>
  C3: at most one session. On every pass on which a session is active (\<open>encoding\<close>
  holds), whatever the difference score, and so also when it is above the threshold, the
  number of \<open>start\<close> calls on the encoder output does not grow, and the session's start
  time either stays what it was or is cleared: no second session is opened. This holds for
  the part of the loop body after the difference is computed and for the whole pass,
  handler included.
\<close>

theorem single_session:
  assumes "encoding s"
  shows "starts (trace (tick_with cfg e d s)) = starts (trace s)
       \<and> (start_time_of_last_recording (tick_with cfg e d s) = start_time_of_last_recording s
            \<or> start_time_of_last_recording (tick_with cfg e d s) = None)
       \<and> starts (trace (loop_iteration cfg e s)) = starts (trace s)
       \<and> (start_time_of_last_recording (loop_iteration cfg e s) = start_time_of_last_recording s
            \<or> start_time_of_last_recording (loop_iteration cfg e s) = None)"
proof (intro conjI)
  show "starts (trace (tick_with cfg e d s)) = starts (trace s)"
    unfolding tick_with_def using assms by (rule on_hist_diff_no_start)
  show "start_time_of_last_recording (tick_with cfg e d s) = start_time_of_last_recording s
      \<or> start_time_of_last_recording (tick_with cfg e d s) = None"
    unfolding tick_with_def using assms by (rule on_hist_diff_session)
  show "starts (trace (loop_iteration cfg e s)) = starts (trace s)"
    using loop_try_no_start [OF assms, of cfg e]
    by (simp add: loop_iteration_alt step_simps split: option.splits)
  show "start_time_of_last_recording (loop_iteration cfg e s) = start_time_of_last_recording s
      \<or> start_time_of_last_recording (loop_iteration cfg e s) = None"
    using loop_try_session [OF assms, of cfg e]
    by (simp add: loop_iteration_alt step_simps split: option.splits)
qed

lemma init_idle:
  "\<not> encoding init" "start_time_of_last_recording init = None" "trace init = []"
  by (simp_all add: init_def)

lemma started_facts:
  assumes "min_pixel_diff cfg < 8"
  shows "encoding (started cfg)"
    and "start_time_of_last_recording (started cfg) = Some 0"
    and "time_of_last_motion_detection (started cfg) = Some 0"
    and "commands (trace (started cfg)) = [StartWriting (File_path (recording_dir cfg) 0 ''.h264'')]"
proof -
  have out: "output_start (env_at 0 []) = None" by (simp add: env_at_def)
  note b = on_hist_diff_begins [OF init_idle(1,2) assms out]
  show "encoding (started cfg)" using b(2) by (simp add: started_def)
  show "start_time_of_last_recording (started cfg) = Some 0"
    using b(3) by (simp add: started_def env_at_def)
  show "time_of_last_motion_detection (started cfg) = Some 0"
    using b(4) by (simp add: started_def env_at_def)
  show "commands (trace (started cfg)) = [StartWriting (File_path (recording_dir cfg) 0 ''.h264'')]"
    using b(5) by (simp add: started_def env_at_def init_idle commands_simps)
qed

lemma default_threshold: "min_pixel_diff default_config < 8"
  by (simp add: default_config_def)

theorem single_session_witness:
  "encoding (started default_config)
   \<and> min_pixel_diff default_config < 8
   \<and> starts (trace (tick_with default_config (env_at 1000000 []) 8 (started default_config)))
       = starts (trace (started default_config))
   \<and> (start_time_of_last_recording
         (tick_with default_config (env_at 1000000 []) 8 (started default_config)) = Some 0
      \<or> start_time_of_last_recording
         (tick_with default_config (env_at 1000000 []) 8 (started default_config)) = None)"
  using single_session [OF started_facts(1) [OF default_threshold],
      of default_config "env_at 1000000 []" 8]
    started_facts(1,2) [OF default_threshold] default_threshold
  by simp

section \<open>Score sequences\<close>

text \<open>
  C4: from an idle state, with threshold 7.2, the scores 0, 0, 8.0, 8.0, 8.0 are fed. The
  encoder output accepts the start on the third sample, the clock readings of the fourth
  and fifth samples are at most five seconds after the motion time of the third, and no
  cap is reached (none is set, or the readings stay below it). Then the state is idle
  after the first two samples with no call made; on the third sample a session opens with
  the start time read on that pass, the motion time read on that pass and one
  \<open>start\<close> call for the video file of that start time; and the session is still
  active, unchanged and with no further call, after the fourth and the fifth sample.
\<close>

theorem third_sample_starts_recording:
  assumes idle: "\<not> encoding s0" "start_time_of_last_recording s0 = None"
    and thr: "min_pixel_diff cfg = 72 / 10"
    and sink: "output_start e3 = None"
    and cap: "max_recording_length_seconds cfg \<le> 0
         \<or> (now_cap_recheck e4 - now_start e3 < max_recording_length_seconds cfg * 1000000
            \<and> now_cap_recheck e5 - now_start e3 < max_recording_length_seconds cfg * 1000000)"
    and gap: "now_idle_check e4 - now_motion e3 \<le> 5000000"
         "now_idle_check e5 - now_motion e3 \<le> 5000000"
  shows "\<not> encoding (feed cfg [(e1, 0)] s0)
       \<and> \<not> encoding (feed cfg [(e1, 0), (e2, 0)] s0)
       \<and> commands (trace (feed cfg [(e1, 0), (e2, 0)] s0)) = commands (trace s0)
       \<and> encoding (feed cfg [(e1, 0), (e2, 0), (e3, 8)] s0)
       \<and> start_time_of_last_recording (feed cfg [(e1, 0), (e2, 0), (e3, 8)] s0)
            = Some (now_start e3)
       \<and> time_of_last_motion_detection (feed cfg [(e1, 0), (e2, 0), (e3, 8)] s0)
            = Some (now_motion e3)
       \<and> commands (trace (feed cfg [(e1, 0), (e2, 0), (e3, 8)] s0))
            = commands (trace s0)
              @ [StartWriting (File_path (recording_dir cfg) (now_start e3) ''.h264'')]
       \<and> encoding (feed cfg [(e1, 0), (e2, 0), (e3, 8), (e4, 8)] s0)
       \<and> encoding (feed cfg [(e1, 0), (e2, 0), (e3, 8), (e4, 8), (e5, 8)] s0)
       \<and> start_time_of_last_recording (feed cfg [(e1, 0), (e2, 0), (e3, 8), (e4, 8), (e5, 8)] s0)
            = Some (now_start e3)
       \<and> commands (trace (feed cfg [(e1, 0), (e2, 0), (e3, 8), (e4, 8), (e5, 8)] s0))
            = commands (trace s0)
              @ [StartWriting (File_path (recording_dir cfg) (now_start e3) ''.h264'')]"
proof -
  let ?s1 = "state_of (on_hist_diff cfg e1 0 s0)"
  let ?s2 = "state_of (on_hist_diff cfg e2 0 ?s1)"
  let ?s3 = "state_of (on_hist_diff cfg e3 8 ?s2)"
  let ?s4 = "state_of (on_hist_diff cfg e4 8 ?s3)"
  let ?s5 = "state_of (on_hist_diff cfg e5 8 ?s4)"
  have low: "\<not> 0 > min_pixel_diff cfg" and high: "8 > min_pixel_diff cfg"
    using thr by simp_all
  note q1 = on_hist_diff_quiet [OF idle low, of e1]
  have i1: "\<not> encoding ?s1" using q1(2) by simp
  note q2 = on_hist_diff_quiet [OF i1 q1(3) low, of e2]
  have i2: "\<not> encoding ?s2" using q2(2) by simp
  note b3 = on_hist_diff_begins [OF i2 q2(3) high sink]
  have r3: "encoding ?s3" using b3(2) by simp
  have cap4: "max_recording_length_seconds cfg \<le> 0
      \<or> now_cap_recheck e4 - now_start e3 < max_recording_length_seconds cfg * 1000000"
    using cap by blast
  have cap5: "max_recording_length_seconds cfg \<le> 0
      \<or> now_cap_recheck e5 - now_start e3 < max_recording_length_seconds cfg * 1000000"
    using cap by blast
  note w4 = on_hist_diff_waits [OF r3 b3(3) b3(4) cap4 gap(1), of 8]
  have r4: "encoding ?s4" using w4(2) by simp
  note w5 = on_hist_diff_waits [OF r4 w4(3) w4(4) cap5 gap(2), of 8]
  have r5: "encoding ?s5" using w5(2) by simp
  show ?thesis
    using i1 i2 q1(5) q2(5) r3 b3(3) b3(4) b3(5) r4 r5 w4(5) w5(3) w5(5)
    by simp
qed

theorem third_sample_starts_recording_witness:
  "\<not> encoding init \<and> start_time_of_last_recording init = None
   \<and> min_pixel_diff default_config = 72 / 10
   \<and> encoding (feed default_config
        [(env_at 0 [], 0), (env_at 1000000 [], 0), (env_at 2000000 [], 8)] init)
   \<and> encoding (feed default_config
        [(env_at 0 [], 0), (env_at 1000000 [], 0), (env_at 2000000 [], 8),
         (env_at 3000000 [], 8), (env_at 4000000 [], 8)] init)
   \<and> commands (trace (feed default_config
        [(env_at 0 [], 0), (env_at 1000000 [], 0), (env_at 2000000 [], 8),
         (env_at 3000000 [], 8), (env_at 4000000 [], 8)] init))
       = [StartWriting (File_path ''./recordings/'' 2000000 ''.h264'')]"
proof -
  have thr: "min_pixel_diff default_config = 72 / 10" by (simp add: default_config_def)
  have sink: "output_start (env_at 2000000 []) = None" by (simp add: env_at_def)
  have cap: "max_recording_length_seconds default_config \<le> 0
      \<or> (now_cap_recheck (env_at 3000000 []) - now_start (env_at 2000000 [])
            < max_recording_length_seconds default_config * 1000000
         \<and> now_cap_recheck (env_at 4000000 []) - now_start (env_at 2000000 [])
            < max_recording_length_seconds default_config * 1000000)"
    by (simp add: default_config_def)
  have gap4: "now_idle_check (env_at 3000000 []) - now_motion (env_at 2000000 []) \<le> 5000000"
    by (simp add: env_at_def)
  have gap5: "now_idle_check (env_at 4000000 []) - now_motion (env_at 2000000 []) \<le> 5000000"
    by (simp add: env_at_def)
  have dir: "recording_dir default_config = ''./recordings/''"
    by (simp add: default_config_def)
  have at: "now_start (env_at 2000000 []) = 2000000" by (simp add: env_at_def)
  from third_sample_starts_recording [OF init_idle(1,2) thr sink cap gap4 gap5,
      of "env_at 0 []" "env_at 1000000 []"]
  show ?thesis
    using init_idle thr by (simp add: dir at commands_simps)
qed

text \<open>
  C1: a session started at time 0 with the default configuration (threshold 7.2, no cap).
  A pass one second later with score 8.0 leaves the motion time at 0: it is not refreshed.
  A pass six seconds after the start with score 8.0 finalizes the session: snapshot, stop
  of the encoder output, session cleared. The branch that refreshes the motion time is
  guarded by \<open>not encoding\<close>, so it is never taken while a session is active.
\<close>

theorem motion_during_recording_not_refreshed:
  "encoding (started default_config)
   \<and> start_time_of_last_recording (started default_config) = Some 0
   \<and> time_of_last_motion_detection (started default_config) = Some 0
   \<and> min_pixel_diff default_config < 8
   \<and> max_recording_length_seconds default_config = 0
   \<and> time_of_last_motion_detection
        (tick_with default_config (env_at 1000000 []) 8 (started default_config)) = Some 0
   \<and> encoding (tick_with default_config (env_at 6000000 []) 8 (started default_config)) = False
   \<and> start_time_of_last_recording
        (tick_with default_config (env_at 6000000 []) 8 (started default_config)) = None
   \<and> commands (trace (tick_with default_config (env_at 6000000 []) 8 (started default_config)))
       = [StartWriting (File_path ''./recordings/'' 0 ''.h264''),
          CaptureSnapshot (File_path ''./recordings/'' 0 ''.jpeg''), StopWriting]"
proof -
  note st = started_facts [OF default_threshold]
  have cap: "max_recording_length_seconds default_config \<le> 0
      \<or> now_cap_recheck e - 0 < max_recording_length_seconds default_config * 1000000" for e
    by (simp add: default_config_def)
  have gap1: "now_idle_check (env_at 1000000 []) - 0 \<le> 5000000" by (simp add: env_at_def)
  have gap6: "now_idle_check (env_at 6000000 []) - 0 > 5000000" by (simp add: env_at_def)
  have ok: "capture_snapshot (env_at 6000000 []) = None" "output_stop (env_at 6000000 []) = None"
    by (simp_all add: env_at_def)
  have nocred: "\<not> (truthy (email_username default_config) \<and> truthy (recipient default_config)
      \<and> truthy (email_password default_config))"
    by (simp add: default_config_def truthy_def)
  have keep: "\<not> delete_local_recordings default_config" by (simp add: default_config_def)
  note w = on_hist_diff_waits [OF st(1,2,3) cap gap1, of 8]
  note f = on_hist_diff_idle_stop [OF st(1,2,3) cap gap6 ok nocred keep, of 8]
  show ?thesis
    using st w(4) f(2,3,4) default_threshold
    by (simp add: tick_with_def default_config_def)
qed

text \<open>
  C2: with a cap of ten seconds and the score above the threshold, a session started at
  time 0 is finalized on the pass at six seconds: the cap is not yet exceeded there, the
  session is ended by the idle check, whose motion time is never refreshed during a
  session.
\<close>

theorem capped_session_ends_early:
  "encoding (started capped_config)
   \<and> start_time_of_last_recording (started capped_config) = Some 0
   \<and> min_pixel_diff capped_config < 8
   \<and> max_recording_length_seconds capped_config = 10
   \<and> \<not> is_max_recording_length_exceeded capped_config 6000000 (started capped_config)
   \<and> encoding (tick_with capped_config (env_at 6000000 []) 8 (started capped_config)) = False
   \<and> start_time_of_last_recording
        (tick_with capped_config (env_at 6000000 []) 8 (started capped_config)) = None
   \<and> commands (trace (tick_with capped_config (env_at 6000000 []) 8 (started capped_config)))
       = [StartWriting (File_path ''./recordings/'' 0 ''.h264''),
          CaptureSnapshot (File_path ''./recordings/'' 0 ''.jpeg''), StopWriting]"
proof -
  have thr: "min_pixel_diff capped_config < 8"
    by (simp add: capped_config_def default_config_def)
  note st = started_facts [OF thr]
  have cap: "max_recording_length_seconds capped_config \<le> 0
      \<or> now_cap_recheck (env_at 6000000 []) - 0
           < max_recording_length_seconds capped_config * 1000000"
    by (simp add: capped_config_def default_config_def env_at_def)
  have gap6: "now_idle_check (env_at 6000000 []) - 0 > 5000000" by (simp add: env_at_def)
  have ok: "capture_snapshot (env_at 6000000 []) = None" "output_stop (env_at 6000000 []) = None"
    by (simp_all add: env_at_def)
  have nocred: "\<not> (truthy (email_username capped_config) \<and> truthy (recipient capped_config)
      \<and> truthy (email_password capped_config))"
    by (simp add: capped_config_def default_config_def truthy_def)
  have keep: "\<not> delete_local_recordings capped_config"
    by (simp add: capped_config_def default_config_def)
  note f = on_hist_diff_idle_stop [OF st(1,2,3) cap gap6 ok nocred keep, of 8]
  have notyet: "\<not> is_max_recording_length_exceeded capped_config 6000000 (started capped_config)"
    using st(2)
    by (simp add: is_max_recording_length_exceeded_def capped_config_def default_config_def)
  show ?thesis
    using st f(2,3,4) thr notyet
    by (simp add: tick_with_def capped_config_def default_config_def)
qed

section \<open>Estimator and delivery\<close>

lemma sum_abs_diff_same: "sum_list (map (\<lambda>(c, p). \<bar>c - p\<bar>) (zip xs xs)) = (0::int)"
  by (induction xs) simp_all

text \<open>
  C9: for two identical frames the difference estimator (the sum of the absolute per-bin
  histogram differences divided by the number of bins) returns 0.
\<close>

theorem identical_frames_no_difference: "calculate_histogram_difference f f = 0"
  by (simp add: calculate_histogram_difference_def Let_def sum_abs_diff_same)

lemma delete_recording_state:
  "state_of (delete_recording cfg e p s) =
     (if delete_local_recordings cfg then emit (DeleteLocal p) (emit (Log_deleting p) s) else s)"
  "raised (delete_recording cfg e p s) = (if delete_local_recordings cfg then os_remove e else None)"
  by (simp_all add: delete_recording_def step_simps)



text \<open>
  The paths of a delivery attempt that the handler of \<open>send_email\<close> covers: with local
  deletion enabled and credentials present, when the attempt succeeds or fails with an
  \<open>SMTPException\<close> or a socket timeout, it is followed by its log line and by the
  request to delete the file, and \<open>upload_file\<close> raises only if the deletion itself
  does.
\<close>

lemma deletion_after_handled_delivery:
  assumes del: "delete_local_recordings cfg"
    and cred: "truthy (email_username cfg) \<and> truthy (recipient cfg) \<and> truthy (email_password cfg)"
    and handled: "send e = None \<or> send e = Some SMTPException \<or> send e = Some Socket_timeout"
  shows "trace (state_of (upload_file cfg e p s))
           = trace s @ [SendEmail p,
                        (case send e of None \<Rightarrow> Log_sent p | Some x \<Rightarrow> Log_send_failed p x),
                        Log_deleting p, DeleteLocal p]
       \<and> raised (upload_file cfg e p s) = os_remove e"
  using del handled
  by (auto simp add: upload_file_with_credentials [OF cred] step_simps
        send_email_state send_email_raised delete_recording_state)

lemma mail_config_fields:
  "delete_local_recordings mail_config"
  "truthy (email_username mail_config) \<and> truthy (recipient mail_config)
     \<and> truthy (email_password mail_config)"
  "snapshot_only mail_config = False"
  "recording_dir mail_config = ''./recordings/''"
  by (simp_all add: mail_config_def default_config_def truthy_def)

lemma deletion_after_smtp_failure:
  "delete_local_recordings mail_config
   \<and> send ((env_at 0 [])\<lparr>send := Some SMTPException\<rparr>) = Some SMTPException
   \<and> trace (state_of (upload_file mail_config ((env_at 0 [])\<lparr>send := Some SMTPException\<rparr>)
        (File_path ''./recordings/'' 0 ''.h264'') init))
       = [SendEmail (File_path ''./recordings/'' 0 ''.h264''),
          Log_send_failed (File_path ''./recordings/'' 0 ''.h264'') SMTPException,
          Log_deleting (File_path ''./recordings/'' 0 ''.h264''),
          DeleteLocal (File_path ''./recordings/'' 0 ''.h264'')]
   \<and> raised (upload_file mail_config ((env_at 0 [])\<lparr>send := Some SMTPException\<rparr>)
        (File_path ''./recordings/'' 0 ''.h264'') init) = None"
proof -
  have handled: "send ((env_at 0 [])\<lparr>send := Some SMTPException\<rparr>) = None
      \<or> send ((env_at 0 [])\<lparr>send := Some SMTPException\<rparr>) = Some SMTPException
      \<or> send ((env_at 0 [])\<lparr>send := Some SMTPException\<rparr>) = Some Socket_timeout"
    by simp
  from deletion_after_handled_delivery [OF mail_config_fields(1,2) handled,
      of "File_path ''./recordings/'' 0 ''.h264''" init]
  show ?thesis
    using mail_config_fields(1) by (simp add: init_idle env_at_def)
qed

text \<open>
  C6: with local deletion enabled, the deletion is to be requested after every delivery
  attempt and a delivery failure is not to leave the finalization. The handler of
  \<open>send_email\<close> misses the failures outside its two classes: a delivery attempt that
  fails with an \<open>OSError\<close>, as for a refused connection, leaves \<open>upload_file\<close> and
  the finalization; no deletion is requested and the session is left marked as encoding.
\<close>

theorem unhandled_delivery_failure_skips_deletion:
  "raised (upload_file mail_config ((env_at 0 [])\<lparr>send := Some OSError\<rparr>)
      (File_path ''./recordings/'' 0 ''.h264'') init) = Some OSError
   \<and> DeleteLocal (File_path ''./recordings/'' 0 ''.h264'')
       \<notin> set (trace (state_of (upload_file mail_config ((env_at 0 [])\<lparr>send := Some OSError\<rparr>)
            (File_path ''./recordings/'' 0 ''.h264'') init)))
   \<and> raised (write_recording_to_file mail_config ((env_at 6000000 [])\<lparr>send := Some OSError\<rparr>)
        (started mail_config)) = Some OSError
   \<and> encoding (state_of (write_recording_to_file mail_config
        ((env_at 6000000 [])\<lparr>send := Some OSError\<rparr>) (started mail_config)))
   \<and> commands (trace (state_of (write_recording_to_file mail_config
        ((env_at 6000000 [])\<lparr>send := Some OSError\<rparr>) (started mail_config))))
       = [StartWriting (File_path ''./recordings/'' 0 ''.h264''),
          CaptureSnapshot (File_path ''./recordings/'' 0 ''.jpeg''), StopWriting,
          SendEmail (File_path ''./recordings/'' 0 ''.h264'')]"
proof -
  have thr: "min_pixel_diff mail_config < 8"
    by (simp add: mail_config_def default_config_def)
  note st = started_facts [OF thr]
  have up: "raised (upload_file mail_config ((env_at t [])\<lparr>send := Some OSError\<rparr>) p s) = Some OSError"
    "trace (state_of (upload_file mail_config ((env_at t [])\<lparr>send := Some OSError\<rparr>) p s))
       = trace s @ [SendEmail p]" for t p s
    by (simp_all add: upload_file_with_credentials [OF mail_config_fields(2)] step_simps
          send_email_state send_email_raised)
  have a: "raised (upload_file mail_config ((env_at 0 [])\<lparr>send := Some OSError\<rparr>)
      (File_path ''./recordings/'' 0 ''.h264'') init) = Some OSError"
    by (rule up(1))
  have b: "DeleteLocal (File_path ''./recordings/'' 0 ''.h264'')
       \<notin> set (trace (state_of (upload_file mail_config ((env_at 0 [])\<lparr>send := Some OSError\<rparr>)
            (File_path ''./recordings/'' 0 ''.h264'') init)))"
    by (simp add: up(2) init_idle)
  let ?e = "(env_at 6000000 [])\<lparr>send := Some OSError\<rparr>"
  have ok: "capture_snapshot ?e = None" "output_stop ?e = None"
    by (simp_all add: env_at_def)
  have c: "raised (write_recording_to_file mail_config ?e (started mail_config)) = Some OSError"
    using st(2)
    by (simp add: write_recording_to_file_def write_snapshot_to_file_def create_snapshot_def
          get_recording_file_path_def get_snapshot_file_path_def step_simps up
          mail_config_fields ok)
  have d: "encoding (state_of (write_recording_to_file mail_config ?e (started mail_config)))"
    using st(1,2)
    by (simp add: write_recording_to_file_def write_snapshot_to_file_def create_snapshot_def
          get_recording_file_path_def get_snapshot_file_path_def step_simps up
          upload_file_frame mail_config_fields ok)
  have e: "commands (trace (state_of (write_recording_to_file mail_config ?e (started mail_config))))
      = [StartWriting (File_path ''./recordings/'' 0 ''.h264''),
         CaptureSnapshot (File_path ''./recordings/'' 0 ''.jpeg''), StopWriting,
         SendEmail (File_path ''./recordings/'' 0 ''.h264'')]"
    using st(2,4)
    by (simp add: write_recording_to_file_def write_snapshot_to_file_def create_snapshot_def
          get_recording_file_path_def get_snapshot_file_path_def step_simps up
          mail_config_fields ok)
  show ?thesis using a b c d e by simp
qed

section \<open>Exceptions in the loop\<close>

lemma loop_try_raised_previous_frame:
  "previous_frame (state_of (loop_try cfg e s)) = previous_frame s
   \<or> raised (loop_try cfg e s) = None"
  by (simp add: loop_try_def Let_def step_simps on_hist_diff_previous_frame
        split: sum.splits option.splits)

lemma loop_iteration_first_frame:
  assumes "previous_frame s = None"
    and "capture_buffer e (if capture_lores cfg then Lores else Main) = Inr buf"
    and "length (take (lores_width cfg * lores_height cfg) buf) = lores_height cfg * lores_width cfg"
  shows "loop_iteration cfg e s = s\<lparr>previous_frame := Some \<lparr>rows = lores_height cfg,
      cols = lores_width cfg, samples = take (lores_width cfg * lores_height cfg) buf\<rparr>\<rparr>"
  using assms
  by (simp add: loop_iteration_def loop_try_def Let_def reshape_def and_then_def)

lemma loop_iteration_compares:
  assumes "previous_frame s = Some p"
    and "capture_buffer e (if capture_lores cfg then Lores else Main) = Inr buf"
    and "length (take (lores_width cfg * lores_height cfg) buf) = lores_height cfg * lores_width cfg"
  shows "diff_history (loop_iteration cfg e s)
     = record_diff (calculate_histogram_difference \<lparr>rows = lores_height cfg,
         cols = lores_width cfg, samples = take (lores_width cfg * lores_height cfg) buf\<rparr> p)
        (diff_history s)"
  using assms
  by (simp add: loop_iteration_alt loop_try_def Let_def reshape_def step_simps
        on_hist_diff_history split: option.splits)

text \<open>
  C5, as amended: when the \<open>try\<close> block of a pass raises, the handler logs the exception
  and the loop goes on, and the retained previous frame is kept as it was: it is not
  discarded. The next frame that is captured is compared against that frame, the last one
  that completed a pass before the error, and the score of that comparison is recorded.
\<close>

theorem error_keeps_previous_frame:
  assumes err: "raised (loop_try cfg e s) = Some x"
    and nxt: "capture_buffer e' (if capture_lores cfg then Lores else Main) = Inr buf"
    and size: "length (take (lores_width cfg * lores_height cfg) buf)
                 = lores_height cfg * lores_width cfg"
  shows "trace (loop_iteration cfg e s) = trace (state_of (loop_try cfg e s)) @ [Log_loop_error x]
       \<and> previous_frame (loop_iteration cfg e s) = previous_frame s
       \<and> (\<forall>p. previous_frame s = Some p \<longrightarrow>
            diff_history (loop_iteration cfg e' (loop_iteration cfg e s))
              = record_diff (calculate_histogram_difference \<lparr>rows = lores_height cfg,
                  cols = lores_width cfg,
                  samples = take (lores_width cfg * lores_height cfg) buf\<rparr> p)
                 (diff_history (loop_iteration cfg e s)))"
proof (intro conjI allI impI)
  show "trace (loop_iteration cfg e s) = trace (state_of (loop_try cfg e s)) @ [Log_loop_error x]"
    using err by (simp add: loop_iteration_alt emit_fields)
  have "previous_frame (state_of (loop_try cfg e s)) = previous_frame s"
    using loop_try_raised_previous_frame [of cfg e s] err by simp
  then show kept: "previous_frame (loop_iteration cfg e s) = previous_frame s"
    using err by (simp add: loop_iteration_alt emit_fields)
  fix p
  assume "previous_frame s = Some p"
  with kept have "previous_frame (loop_iteration cfg e s) = Some p" by simp
  from loop_iteration_compares [OF this nxt size]
  show "diff_history (loop_iteration cfg e' (loop_iteration cfg e s))
      = record_diff (calculate_histogram_difference \<lparr>rows = lores_height cfg,
          cols = lores_width cfg,
          samples = take (lores_width cfg * lores_height cfg) buf\<rparr> p)
         (diff_history (loop_iteration cfg e s))" .
qed

lemma buffer_sizes:
  "take (320 * 240) dark_buffer = dark_buffer"
  "take (320 * 240) bright_buffer = bright_buffer"
  "length dark_buffer = 240 * 320" "length bright_buffer = 240 * 320"
  by (simp_all add: dark_buffer_def bright_buffer_def)

lemma default_resolution:
  "lores_width default_config = 320" "lores_height default_config = 240"
  "capture_lores default_config = False"
  by (simp_all add: default_config_def)

lemma after_dark_frame:
  "loop_iteration default_config (env_at 0 dark_buffer) init
     = init\<lparr>previous_frame := Some \<lparr>rows = 240, cols = 320, samples = dark_buffer\<rparr>\<rparr>"
proof -
  have cap: "capture_buffer (env_at 0 dark_buffer)
      (if capture_lores default_config then Lores else Main) = Inr dark_buffer"
    by (simp add: env_at_def)
  have size: "length (take (lores_width default_config * lores_height default_config) dark_buffer)
      = lores_height default_config * lores_width default_config"
    by (simp only: default_resolution buffer_sizes)
  have "previous_frame init = None" by (simp add: init_def)
  from loop_iteration_first_frame [OF this cap size] show ?thesis
    by (simp only: default_resolution buffer_sizes)
qed

lemma failing_capture_raises:
  "raised (loop_try cfg (failing_capture t x) s) = Some x"
  "state_of (loop_try cfg (failing_capture t x) s) = s"
  by (simp_all add: loop_try_def failing_capture_def Let_def)

theorem error_keeps_previous_frame_witness:
  "raised (loop_try default_config (failing_capture 1000000 RuntimeError)
      (loop_iteration default_config (env_at 0 dark_buffer) init)) = Some RuntimeError
   \<and> previous_frame (loop_iteration default_config (env_at 0 dark_buffer) init)
       = Some \<lparr>rows = 240, cols = 320, samples = dark_buffer\<rparr>
   \<and> previous_frame (loop_iteration default_config (failing_capture 1000000 RuntimeError)
        (loop_iteration default_config (env_at 0 dark_buffer) init))
       = Some \<lparr>rows = 240, cols = 320, samples = dark_buffer\<rparr>
   \<and> diff_history (loop_iteration default_config (env_at 2000000 bright_buffer)
        (loop_iteration default_config (failing_capture 1000000 RuntimeError)
          (loop_iteration default_config (env_at 0 dark_buffer) init)))
       = record_diff (calculate_histogram_difference
            \<lparr>rows = 240, cols = 320, samples = bright_buffer\<rparr>
            \<lparr>rows = 240, cols = 320, samples = dark_buffer\<rparr>)
           (diff_history (loop_iteration default_config (failing_capture 1000000 RuntimeError)
              (loop_iteration default_config (env_at 0 dark_buffer) init)))"
proof -
  let ?s = "loop_iteration default_config (env_at 0 dark_buffer) init"
  have err: "raised (loop_try default_config (failing_capture 1000000 RuntimeError) ?s)
      = Some RuntimeError"
    by (rule failing_capture_raises)
  have prev: "previous_frame ?s = Some \<lparr>rows = 240, cols = 320, samples = dark_buffer\<rparr>"
    by (simp add: after_dark_frame)
  have nxt: "capture_buffer (env_at 2000000 bright_buffer)
      (if capture_lores default_config then Lores else Main) = Inr bright_buffer"
    by (simp add: env_at_def)
  have size: "length (take (lores_width default_config * lores_height default_config) bright_buffer)
      = lores_height default_config * lores_width default_config"
    by (simp only: default_resolution buffer_sizes)
  from error_keeps_previous_frame [OF err nxt size] err prev
  show ?thesis by (simp add: default_resolution buffer_sizes)
qed

text \<open>
  C5, as stated, fails: after a dark frame and a pass whose capture raises, the previous
  frame is still the dark frame, and the bright frame captured next is compared against
  it: the history then holds the score of that comparison, where a fresh baseline would
  have left it empty.
\<close>

theorem stale_frame_after_error:
  "previous_frame (loop default_config
      [env_at 0 dark_buffer, failing_capture 1000000 RuntimeError] init)
     = Some \<lparr>rows = 240, cols = 320, samples = dark_buffer\<rparr>
   \<and> diff_history (loop default_config
      [env_at 0 dark_buffer, failing_capture 1000000 RuntimeError,
       env_at 2000000 bright_buffer] init)
     = [calculate_histogram_difference
          \<lparr>rows = 240, cols = 320, samples = bright_buffer\<rparr>
          \<lparr>rows = 240, cols = 320, samples = dark_buffer\<rparr>]"
proof -
  let ?dark = "\<lparr>rows = 240, cols = 320, samples = dark_buffer\<rparr>"
  let ?s1 = "init\<lparr>previous_frame := Some ?dark\<rparr>"
  let ?s2 = "emit (Log_loop_error RuntimeError) ?s1"
  have two: "loop_iteration default_config (failing_capture 1000000 RuntimeError) ?s1 = ?s2"
    by (simp add: loop_iteration_alt failing_capture_raises)
  have prev: "previous_frame ?s2 = Some ?dark" by (simp add: emit_fields)
  have nxt: "capture_buffer (env_at 2000000 bright_buffer)
      (if capture_lores default_config then Lores else Main) = Inr bright_buffer"
    by (simp add: env_at_def)
  have size: "length (take (lores_width default_config * lores_height default_config) bright_buffer)
      = lores_height default_config * lores_width default_config"
    by (simp only: default_resolution buffer_sizes)
  have "diff_history (loop_iteration default_config (env_at 2000000 bright_buffer) ?s2)
      = record_diff (calculate_histogram_difference
          \<lparr>rows = 240, cols = 320, samples = bright_buffer\<rparr> ?dark) (diff_history ?s2)"
    using loop_iteration_compares [OF prev nxt size]
    by (simp only: default_resolution buffer_sizes)
  moreover have "diff_history ?s2 = []" by (simp add: emit_fields init_def)
  ultimately have three: "diff_history (loop_iteration default_config
      (env_at 2000000 bright_buffer) ?s2)
      = [calculate_histogram_difference \<lparr>rows = 240, cols = 320, samples = bright_buffer\<rparr> ?dark]"
    by (simp add: record_diff_def diff_history_count_def)
  show ?thesis
    using three prev by (simp add: after_dark_frame two)
qed

end
